theory Spec2Isabelle
  imports Complex_Main "HOL-Library.Sublist" "HOL-Library.Multiset"
begin

section \<open>The training driver \<^verbatim>\<open>train.py\<close>\<close>

text \<open>
  A shallow embedding of \<^verbatim>\<open>src/train.py\<close>. Python integers are \<^typ>\<open>int\<close>, scores and
  losses are \<^typ>\<open>real\<close> (the exact arithmetic that floating point approximates), lists
  are lists, and an exception that ends the run is the \<open>Inl\<close> branch of a sum.
  The network, the optimiser, the BLEU scorer and the batch iterator are collaborators
  outside the file; they enter as parameters.
\<close>

subsection \<open>Data\<close>

datatype py_error = ValueError | ZeroDivisionError | KeyError | IndexError | IOError

text \<open>An example is a pair (source ids, target ids): \<^verbatim>\<open>new[0]\<close> and \<^verbatim>\<open>new[1]\<close>.\<close>

type_synonym example = "int list \<times> int list"

subsection \<open>\<^verbatim>\<open>batch_size_func\<close>\<close>

text \<open>\<^verbatim>\<open>return sofar + len(new[0]) + len(new[1])\<close>; the argument \<open>count\<close> (here \<open>cnt\<close>) is unused.\<close>

definition batch_size_func :: "example \<Rightarrow> int \<Rightarrow> int \<Rightarrow> int" where
  "batch_size_func new cnt sofar = sofar + int (length (fst new)) + int (length (snd new))"

subsection \<open>\<^verbatim>\<open>tally_parameters\<close>\<close>

text \<open>
  Python's \<^verbatim>\<open>or\<close> returns its first operand when that is truthy and the second
  otherwise; a string is truthy when it is not empty. The operands of the \<^verbatim>\<open>elif\<close>
  are a string literal and the boolean \<^verbatim>\<open>'generator' in name\<close>, since \<^verbatim>\<open>in\<close> binds
  tighter than \<^verbatim>\<open>or\<close>.
\<close>

datatype pyval = PyStr string | PyBool bool

fun truthy :: "pyval \<Rightarrow> bool" where
  "truthy (PyStr s) = (s \<noteq> [])"
| "truthy (PyBool b) = b"

definition py_or :: "pyval \<Rightarrow> pyval \<Rightarrow> pyval" where
  "py_or a b = (if truthy a then a else b)"

text \<open>\<^verbatim>\<open>sub in s\<close> on strings: \<open>sub\<close> occurs in \<open>s\<close> as a contiguous block.\<close>

fun str_in :: "string \<Rightarrow> string \<Rightarrow> bool" where
  "str_in sub [] = (sub = [])"
| "str_in sub (c # cs) = (prefix sub (c # cs) \<or> str_in sub cs)"

definition elif_cond :: "string \<Rightarrow> pyval" where
  "elif_cond name = py_or (PyStr ''decoder'') (PyBool (str_in ''generator'' name))"

text \<open>
  The loop over \<^verbatim>\<open>model.named_parameters()\<close>: a parameter is its name and its
  \<^verbatim>\<open>nelement()\<close>. The state is the pair (\<open>enc\<close>, \<open>dec\<close>).
\<close>

fun tally_loop :: "(string \<times> int) list \<Rightarrow> int \<times> int \<Rightarrow> int \<times> int" where
  "tally_loop [] (enc, dec) = (enc, dec)"
| "tally_loop ((name, nelement) # ps) (enc, dec) =
     (if str_in ''encoder'' name then tally_loop ps (enc + nelement, dec)
      else if truthy (elif_cond name) then tally_loop ps (enc, dec + nelement)
      else tally_loop ps (enc, dec))"

text \<open>The three numbers printed: \<open>n_params\<close>, \<open>enc\<close>, \<open>dec\<close>.\<close>

definition tally_parameters :: "(string \<times> int) list \<Rightarrow> int \<times> int \<times> int" where
  "tally_parameters named_parameters =
     (let n_params = sum_list (map snd named_parameters);
          (enc, dec) = tally_loop named_parameters (0, 0)
      in (n_params, enc, dec))"

subsection \<open>\<^verbatim>\<open>save_output\<close>\<close>

text \<open>\<^verbatim>\<open>sep.join(words)\<close>.\<close>

fun join :: "string \<Rightarrow> string list \<Rightarrow> string" where
  "join sep [] = []"
| "join sep [w] = w"
| "join sep (w # v # ws) = w @ sep @ join sep (v # ws)"

text \<open>
  \<^verbatim>\<open>[vocab[y] for y in sent]\<close>: the vocabulary is a mapping from ids to token strings,
  and a lookup of an id it does not hold raises.
\<close>

fun lookup_words :: "(int \<rightharpoonup> string) \<Rightarrow> int list \<Rightarrow> py_error + string list" where
  "lookup_words vocab [] = Inr []"
| "lookup_words vocab (y # sent) =
     (case vocab y of
        None \<Rightarrow> Inl KeyError
      | Some w \<Rightarrow> (case lookup_words vocab sent of Inl e \<Rightarrow> Inl e | Inr ws \<Rightarrow> Inr (w # ws)))"

text \<open>
  The file is the list of the strings written to it, one per \<^verbatim>\<open>fp.write\<close>; its
  contents are their concatenation. \<^verbatim>\<open>write_loop\<close> is the \<^verbatim>\<open>for sent in hypotheses\<close>
  loop, and opening with mode \<^verbatim>\<open>'w'\<close> starts from the empty file.
\<close>

fun write_loop :: "int list list \<Rightarrow> (int \<rightharpoonup> string) \<Rightarrow> string list \<Rightarrow> py_error + string list" where
  "write_loop [] vocab fp = Inr fp"
| "write_loop (sent # hypotheses) vocab fp =
     (case lookup_words vocab sent of
        Inl e \<Rightarrow> Inl e
      | Inr words \<Rightarrow> write_loop hypotheses vocab (fp @ [join '' '' words @ [CHR 0x0A]]))"

definition save_output :: "int list list \<Rightarrow> (int \<rightharpoonup> string) \<Rightarrow> py_error + string list" where
  "save_output hypotheses vocab = write_loop hypotheses vocab []"

subsection \<open>Statistics\<close>

text \<open>
  Modelled from the spec: the class \<^verbatim>\<open>utils.Statistics\<close> (its constructor, \<^verbatim>\<open>update\<close>,
  \<^verbatim>\<open>ppl\<close> and \<^verbatim>\<open>accuracy\<close>) lives in \<^verbatim>\<open>utils.py\<close>, which is not among the source files.
  The spec gives the record \<open>{loss_sum, n_correct, n_src_words, n_words, n_batches}\<close>,
  a fresh instance with every field zero, a merge that accumulates each field, and the
  readouts \<open>perplexity = exp (loss_sum / n_words)\<close> and \<open>accuracy = n_correct / n_words\<close>,
  undefined when \<open>n_words = 0\<close>.
\<close>

record Statistics =
  loss_sum :: real
  n_correct :: int
  n_src_words :: int
  n_words :: int
  n_batches :: int

text \<open>Modelled from the spec: \<^verbatim>\<open>utils.Statistics()\<close>, a freshly reset Statistics.\<close>

definition new_Statistics :: Statistics where
  "new_Statistics = \<lparr>loss_sum = 0, n_correct = 0, n_src_words = 0, n_words = 0, n_batches = 0\<rparr>"

text \<open>
  Modelled from the spec: \<^verbatim>\<open>Statistics.update(stat)\<close>, the merge of a batch's update into
  the aggregate, field by field.
\<close>

definition update :: "Statistics \<Rightarrow> Statistics \<Rightarrow> Statistics" where
  "update s stat =
     \<lparr>loss_sum = loss_sum s + loss_sum stat,
      n_correct = n_correct s + n_correct stat,
      n_src_words = n_src_words s + n_src_words stat,
      n_words = n_words s + n_words stat,
      n_batches = n_batches s + n_batches stat\<rparr>"

text \<open>
  Modelled from the spec: \<^verbatim>\<open>Statistics.ppl()\<close> and \<^verbatim>\<open>Statistics.accuracy()\<close>, with
  \<open>None\<close> for the undefined value at \<open>n_words = 0\<close>.
\<close>

definition ppl :: "Statistics \<Rightarrow> real option" where
  "ppl s = (if n_words s = 0 then None else Some (exp (loss_sum s / real_of_int (n_words s))))"

definition accuracy :: "Statistics \<Rightarrow> real option" where
  "accuracy s =
     (if n_words s = 0 then None else Some (real_of_int (n_correct s) / real_of_int (n_words s)))"

subsection \<open>\<^verbatim>\<open>report_func\<close>\<close>

text \<open>
  The progress line is the call \<^verbatim>\<open>report_stats.output(epoch, batch + 1, num_batches,
  start_time, grad_norm)\<close>: the Statistics it is called on and its five arguments.
\<close>

record progress_line =
  line_stats :: Statistics
  line_epoch :: int
  line_batch :: int
  line_num_batches :: int
  line_start_time :: real
  line_grad_norm :: real

text \<open>
  \<^verbatim>\<open>if batch % report_every == -1 % report_every\<close>. Python's \<^verbatim>\<open>%\<close> on integers takes
  the sign of the divisor, as \<open>mod\<close> on \<^typ>\<open>int\<close> does, and raises on a zero divisor.
  The result is the line printed, if any, and the Statistics returned.
\<close>

definition report_func ::
  "int \<Rightarrow> int \<Rightarrow> int \<Rightarrow> real \<Rightarrow> Statistics \<Rightarrow> int \<Rightarrow> real
     \<Rightarrow> py_error + (progress_line option \<times> Statistics)" where
  "report_func epoch batch num_batches start_time report_stats report_every grad_norm =
     (if report_every = 0 then Inl ZeroDivisionError
      else if batch mod report_every = (- 1) mod report_every
        then Inr (Some \<lparr>line_stats = report_stats, line_epoch = epoch, line_batch = batch + 1,
                          line_num_batches = num_batches, line_start_time = start_time,
                          line_grad_norm = grad_norm\<rparr>,
                  new_Statistics)
        else Inr (None, report_stats))"

subsection \<open>\<^verbatim>\<open>CalculateBleu\<close>\<close>

text \<open>
  \<^verbatim>\<open>range(start, stop, step)\<close>: a zero step raises, a positive step counts up while
  below \<open>stop\<close>, a negative step counts down while above it.
\<close>

definition py_range :: "int \<Rightarrow> int \<Rightarrow> int \<Rightarrow> py_error + int list" where
  "py_range start stop step =
     (if step = 0 then Inl ValueError
      else if 0 < step
        then Inr (map (\<lambda>k. start + int k * step) [0..<nat ((stop - start + step - 1) div step)])
        else Inr (map (\<lambda>k. start + int k * step) [0..<nat ((start - stop - step - 1) div (- step))]))"

text \<open>
  \<^verbatim>\<open>xs[i:j]\<close>: a negative bound counts from the end, and both bounds are clamped to the
  list.
\<close>

definition slice :: "'a list \<Rightarrow> int \<Rightarrow> int \<Rightarrow> 'a list" where
  "slice xs i j =
     (let n = int (length xs);
          lo = (if i < 0 then max 0 (n + i) else min i n);
          hi = (if j < 0 then max 0 (n + j) else min j n)
      in take (nat (hi - lo)) (drop (nat lo) xs))"

text \<open>
  The keyword argument \<^verbatim>\<open>beam\<close> of \<^verbatim>\<open>model.translate\<close>: \<^verbatim>\<open>beam=False\<close> or
  \<^verbatim>\<open>beam=self.beam_size\<close>.
\<close>

datatype beam_arg = BeamFalse | Beam int

text \<open>
  \<^verbatim>\<open>model.translate(sources, max_length, beam=...)\<close> belongs to the network (\<^verbatim>\<open>net.py\<close>)
  and \<^verbatim>\<open>BLEUEvaluator().evaluate(references, hypotheses)\<close> to \<^verbatim>\<open>evaluator.py\<close>; both are
  parameters. A call of \<open>translate\<close> is recorded with its three arguments.
\<close>

type_synonym translate_fn = "int list list \<Rightarrow> int \<Rightarrow> beam_arg \<Rightarrow> int list list"

type_synonym translate_call = "int list list \<times> int \<times> beam_arg"

text \<open>
  The body of \<^verbatim>\<open>for i in range(0, len(self.test_data), self.batch)\<close>. The state is
  (\<open>references\<close>, \<open>hypotheses\<close>) and the calls of \<open>translate\<close> made so far. The
  \<^verbatim>\<open>tolist()\<close> conversions change the container, not the ids.
\<close>

fun bleu_loop ::
  "translate_fn \<Rightarrow> example list \<Rightarrow> int \<Rightarrow> int \<Rightarrow> int \<Rightarrow> int list
     \<Rightarrow> int list list \<times> int list list \<times> translate_call list
     \<Rightarrow> int list list \<times> int list list \<times> translate_call list" where
  "bleu_loop translate test_data batch max_length beam_size [] acc = acc"
| "bleu_loop translate test_data batch max_length beam_size (i # is) (references, hypotheses, calls) =
     (let chunk = slice test_data i (i + batch);
          sources = map fst chunk;
          targets = map snd chunk;
          references' = references @ targets;
          beam = (if beam_size > 1 then Beam beam_size else BeamFalse);
          ys = translate sources max_length beam
      in bleu_loop translate test_data batch max_length beam_size is
           (references', hypotheses @ ys, calls @ [(sources, max_length, beam)]))"

text \<open>
  \<^verbatim>\<open>CalculateBleu(model, test_data, key, batch, max_length, beam_size)()\<close>: the score
  \<^verbatim>\<open>bleu.bleu\<close> and the hypotheses, together with the calls of \<open>translate\<close> it made.
\<close>

definition CalculateBleu ::
  "translate_fn \<Rightarrow> (int list list \<Rightarrow> int list list \<Rightarrow> real) \<Rightarrow> example list \<Rightarrow> int \<Rightarrow> int \<Rightarrow> int
     \<Rightarrow> py_error + ((real \<times> int list list) \<times> translate_call list)" where
  "CalculateBleu translate evaluate test_data batch max_length beam_size =
     (case py_range 0 (int (length test_data)) batch of
        Inl e \<Rightarrow> Inl e
      | Inr is \<Rightarrow>
          (let (references, hypotheses, calls) =
                 bleu_loop translate test_data batch max_length beam_size is ([], [], [])
           in Inr ((evaluate references hypotheses, hypotheses), calls)))"

subsection \<open>The batch sampler\<close>

text \<open>
  Modelled from the spec: the slicing of a corpus into token-budgeted batches is done by
  \<^verbatim>\<open>data.iterator.pool\<close> of the \<^verbatim>\<open>torchtext\<close> library, whose code is not among the source
  files; the source only hands it the budget \<^verbatim>\<open>args.wbatchsize\<close> and \<^verbatim>\<open>batch_size_func\<close>.
  In the spec's words the policy appends an example to the current batch, lets the
  accumulator \<open>batch_size_fn (new, count, sofar)\<close> add its cost, and only then checks
  the bound, so the example appended last may push the sum over the budget; the batch
  is closed once the budget is reached, and what is left at the end is a batch too.
  The order in which the sort-pools present the examples is the order of the list given.
\<close>

fun batch_loop ::
  "(example \<Rightarrow> int \<Rightarrow> int \<Rightarrow> int) \<Rightarrow> int \<Rightarrow> example list \<Rightarrow> example list \<Rightarrow> int
     \<Rightarrow> example list list" where
  "batch_loop batch_size_fn B [] minibatch size_so_far =
     (if minibatch = [] then [] else [minibatch])"
| "batch_loop batch_size_fn B (ex # rest) minibatch size_so_far =
     (let minibatch' = minibatch @ [ex];
          size_so_far' = batch_size_fn ex (int (length minibatch')) size_so_far
      in if B \<le> size_so_far' then minibatch' # batch_loop batch_size_fn B rest [] 0
         else batch_loop batch_size_fn B rest minibatch' size_so_far')"

text \<open>
  Modelled from the spec: the batches of a corpus under the budget \<open>B\<close>, the loop above
  started on the empty batch with the source's \<open>batch_size_func\<close> as accumulator.
\<close>

definition batches :: "example list \<Rightarrow> int \<Rightarrow> example list list" where
  "batches corpus B = batch_loop batch_size_func B corpus [] 0"

text \<open>
  The cost of a batch as the accumulator computes it: \<open>batch_size_func\<close> folded over
  the batch from 0, the \<open>count\<close> running from 1.
\<close>

fun accumulate :: "example list \<Rightarrow> int \<Rightarrow> int \<Rightarrow> int" where
  "accumulate [] cnt sofar = sofar"
| "accumulate (new # rest) cnt sofar = accumulate rest (cnt + 1) (batch_size_func new cnt sofar)"

definition batch_cost :: "example list \<Rightarrow> int" where
  "batch_cost b = accumulate b 1 0"

subsection \<open>\<^verbatim>\<open>main\<close>: the training loop\<close>

text \<open>The fields of \<^verbatim>\<open>args\<close> that the loop reads.\<close>

record args =
  args_epoch :: int
  args_wbatchsize :: int
  args_batchsize :: int
  args_beam_size :: int
  args_report_every :: int
  args_no_bleu :: bool
  args_dev_hyp :: string
  args_test_hyp :: string

text \<open>
  The collaborators, for a network of type \<open>'m\<close>:
  \<^item> \<open>pool\<close>: the batches \<^verbatim>\<open>data.iterator.pool\<close> yields in an epoch, after the shuffle;
  \<^item> \<open>learn\<close>: one forward and backward pass and the optimiser's step, that is lines
    161 to 167: the network afterwards, the Statistics of the batch and the norm of
    the gradient;
  \<^item> \<open>model_translate\<close> and \<open>bleu_evaluate\<close>: as in \<open>CalculateBleu\<close>;
  \<^item> \<open>validate\<close>: the pass over the validation corpus that ends an epoch (lines 185
    to 199), which reads the network, prints, and may raise.
\<close>

record 'm collaborators =
  pool :: "int \<Rightarrow> example list list"
  learn :: "'m \<Rightarrow> example list \<Rightarrow> 'm \<times> Statistics \<times> real"
  model_translate :: "'m \<Rightarrow> translate_fn"
  bleu_evaluate :: "int list list \<Rightarrow> int list list \<Rightarrow> real"
  validate :: "'m \<Rightarrow> py_error option"

text \<open>
  What the run does to the world, in order: a progress line, a \<open>CalculateBleu\<close> pass
  (by its key), a \<^verbatim>\<open>torch.save\<close> of the network, a \<open>save_output\<close> (file name and lines).
\<close>

datatype 'm event =
    is_Output: Output progress_line
  | is_Bleu: Bleu string
  | is_TorchSave: TorchSave 'm
  | is_SaveOutput: SaveOutput string "string list"

text \<open>
  The variables of \<open>main\<close> that change in the loop; \<open>snapshot\<close> is what the file
  \<^verbatim>\<open>args.model_file\<close> holds, if it exists.
\<close>

record 'm run_state =
  model :: 'm
  total_steps :: int
  best_score :: real
  snapshot :: "'m option"
  report_stats :: Statistics
  train_stats :: Statistics
  grad_norm :: real
  events :: "'m event list"

text \<open>
  Lines 180 to 182, the checkpoint decision:
  \<^verbatim>\<open>if score >= best_score: best_score = score; torch.save(model, args.model_file)\<close>.
\<close>

definition maybe_checkpoint :: "real \<Rightarrow> 'm run_state \<Rightarrow> 'm run_state" where
  "maybe_checkpoint score s =
     (if score \<ge> best_score s
      then s\<lparr>best_score := score, snapshot := Some (model s),
             events := events s @ [TorchSave (model s)]\<rparr>
      else s)"

text \<open>
  Lines 175 to 182: the evaluation on the validation corpus,
  \<^verbatim>\<open>CalculateBleu(model, dev_data, 'Dev Bleu', batch=args.batchsize // 4,
  beam_size=args.beam_size)()\<close> with the default \<^verbatim>\<open>max_length=50\<close>, then the checkpoint.
\<close>

definition evaluation_block ::
  "'m collaborators \<Rightarrow> args \<Rightarrow> example list \<Rightarrow> 'm run_state \<Rightarrow> py_error + 'm run_state" where
  "evaluation_block env a dev_data s =
     (if \<not> args_no_bleu a
      then (case CalculateBleu (model_translate env (model s)) (bleu_evaluate env) dev_data
                   (args_batchsize a div 4) 50 (args_beam_size a) of
              Inl e \<Rightarrow> Inl e
            | Inr ((score, _), _) \<Rightarrow>
                Inr (maybe_checkpoint score (s\<lparr>events := events s @ [Bleu ''Dev Bleu'']\<rparr>)))
      else Inr s)"

text \<open>
  Line 174, \<^verbatim>\<open>if total_steps + 1 % 1000 == 0\<close>: \<^verbatim>\<open>%\<close> binds tighter than \<^verbatim>\<open>+\<close>, so the
  test is \<^verbatim>\<open>total_steps + (1 % 1000) == 0\<close>.
\<close>

definition cadence_guard :: "int \<Rightarrow> bool" where
  "cadence_guard n = (n + (1 mod 1000) = 0)"

text \<open>
  One iteration of \<^verbatim>\<open>for num_steps, train_batch in enumerate(train_iter)\<close>, lines 152
  to 182. \<^verbatim>\<open>list(zip(*train_batch))[0]\<close> raises on an empty batch; \<open>nrm\<close> is the
  source's \<open>norm\<close>.
\<close>

definition train_step ::
  "'m collaborators \<Rightarrow> args \<Rightarrow> example list \<Rightarrow> int \<Rightarrow> real \<Rightarrow> int \<Rightarrow> int \<Rightarrow> example list
     \<Rightarrow> 'm run_state \<Rightarrow> py_error + 'm run_state" where
  "train_step env a dev_data iter_per_epoch time_s ep num_steps train_batch s =
     (if train_batch = [] then Inl IndexError
      else
        let n = total_steps s + 1;
            src_words = int (length (concat (map fst train_batch)));
            report1 = (report_stats s)\<lparr>n_src_words := n_src_words (report_stats s) + src_words\<rparr>;
            train1 = (train_stats s)\<lparr>n_src_words := n_src_words (train_stats s) + src_words\<rparr>;
            (model', stat, nrm) = learn env (model s) train_batch;
            grad_norm' = grad_norm s + nrm;
            report2 = update report1 stat;
            train2 = update train1 stat
        in case report_func ep num_steps iter_per_epoch time_s report2 (args_report_every a)
                  (grad_norm' / real_of_int (num_steps + 1)) of
             Inl e \<Rightarrow> Inl e
           | Inr (line, report3) \<Rightarrow>
               (let s' = s\<lparr>model := model', total_steps := n, report_stats := report3,
                           train_stats := train2, grad_norm := grad_norm',
                           events := events s @ (case line of None \<Rightarrow> [] | Some l \<Rightarrow> [Output l])\<rparr>
                in if cadence_guard n then evaluation_block env a dev_data s' else Inr s'))"

fun run_steps ::
  "'m collaborators \<Rightarrow> args \<Rightarrow> example list \<Rightarrow> int \<Rightarrow> real \<Rightarrow> int \<Rightarrow> int \<Rightarrow> example list list
     \<Rightarrow> 'm run_state \<Rightarrow> py_error + 'm run_state" where
  "run_steps env a dev_data iter_per_epoch time_s ep num_steps [] s = Inr s"
| "run_steps env a dev_data iter_per_epoch time_s ep num_steps (train_batch # rest) s =
     (case train_step env a dev_data iter_per_epoch time_s ep num_steps train_batch s of
        Inl e \<Rightarrow> Inl e
      | Inr s' \<Rightarrow> run_steps env a dev_data iter_per_epoch time_s ep (num_steps + 1) rest s')"

text \<open>One epoch, lines 141 to 199: fresh Statistics, the steps, the validation pass.\<close>

definition run_epoch ::
  "'m collaborators \<Rightarrow> args \<Rightarrow> example list \<Rightarrow> int \<Rightarrow> real \<Rightarrow> int \<Rightarrow> 'm run_state
     \<Rightarrow> py_error + 'm run_state" where
  "run_epoch env a dev_data iter_per_epoch time_s ep s =
     (case run_steps env a dev_data iter_per_epoch time_s ep 0 (pool env ep)
             (s\<lparr>report_stats := new_Statistics, train_stats := new_Statistics, grad_norm := 0\<rparr>) of
        Inl e \<Rightarrow> Inl e
      | Inr s' \<Rightarrow> (case validate env (model s') of Some e \<Rightarrow> Inl e | None \<Rightarrow> Inr s'))"

fun run_epochs ::
  "'m collaborators \<Rightarrow> args \<Rightarrow> example list \<Rightarrow> int \<Rightarrow> real \<Rightarrow> int list \<Rightarrow> 'm run_state
     \<Rightarrow> py_error + 'm run_state" where
  "run_epochs env a dev_data iter_per_epoch time_s [] s = Inr s"
| "run_epochs env a dev_data iter_per_epoch time_s (ep # eps) s =
     (case run_epoch env a dev_data iter_per_epoch time_s ep s of
        Inl e \<Rightarrow> Inl e
      | Inr s' \<Rightarrow> run_epochs env a dev_data iter_per_epoch time_s eps s')"

text \<open>
  Lines 202 to 209, after the last epoch: \<^verbatim>\<open>torch.load(args.model_file)\<close>, which raises
  when the file does not exist, then for the validation and the test corpus one
  \<open>CalculateBleu\<close> pass and one \<open>save_output\<close> each.
\<close>

definition final_phase ::
  "'m collaborators \<Rightarrow> args \<Rightarrow> example list \<Rightarrow> example list \<Rightarrow> (int \<rightharpoonup> string) \<Rightarrow> 'm run_state
     \<Rightarrow> py_error + 'm run_state" where
  "final_phase env a dev_data test_data id2w s =
     (case snapshot s of
        None \<Rightarrow> Inl IOError
      | Some m \<Rightarrow>
     (case CalculateBleu (model_translate env m) (bleu_evaluate env) dev_data
             (args_batchsize a div 4) 50 (args_beam_size a) of
        Inl e \<Rightarrow> Inl e
      | Inr ((_, dev_hyp), _) \<Rightarrow>
     (case save_output dev_hyp id2w of
        Inl e \<Rightarrow> Inl e
      | Inr dev_lines \<Rightarrow>
     (case CalculateBleu (model_translate env m) (bleu_evaluate env) test_data
             (args_batchsize a div 4) 50 (args_beam_size a) of
        Inl e \<Rightarrow> Inl e
      | Inr ((_, test_hyp), _) \<Rightarrow>
     (case save_output test_hyp id2w of
        Inl e \<Rightarrow> Inl e
      | Inr test_lines \<Rightarrow>
          Inr (s\<lparr>model := m,
                 events := events s @
                   [Bleu ''Dev Bleu'', SaveOutput (args_dev_hyp a) dev_lines,
                    Bleu ''Test Bleu'', SaveOutput (args_test_hyp a) test_lines]\<rparr>))))))"

text \<open>
  \<open>main\<close> from line 99 on: \<open>best_score = 0\<close>, the word counts of the training corpus
  (\<^verbatim>\<open>list(zip(*train_data))[0]\<close> raises on an empty corpus), \<open>iter_per_epoch\<close> (\<^verbatim>\<open>//\<close>
  raises on a zero \<^verbatim>\<open>args.wbatchsize\<close>), \<open>total_steps = 0\<close>, the epochs
  \<^verbatim>\<open>range(args.epoch)\<close> and the final phase. \<open>model0\<close> is the network as built and
  \<open>file0\<close> what \<^verbatim>\<open>args.model_file\<close> holds when the run starts. The Statistics and
  \<open>grad_norm\<close> are set at the start of every epoch; \<open>init_state\<close> gives them the same
  values before the first.
\<close>

definition init_state :: "'m \<Rightarrow> 'm option \<Rightarrow> 'm run_state" where
  "init_state model0 file0 =
     \<lparr>model = model0, total_steps = 0, best_score = 0, snapshot = file0,
      report_stats = new_Statistics, train_stats = new_Statistics, grad_norm = 0, events = []\<rparr>"

definition main ::
  "'m collaborators \<Rightarrow> args \<Rightarrow> example list \<Rightarrow> example list \<Rightarrow> example list \<Rightarrow> (int \<rightharpoonup> string)
     \<Rightarrow> 'm \<Rightarrow> 'm option \<Rightarrow> real \<Rightarrow> py_error + 'm run_state" where
  "main env a train_data dev_data test_data id2w model0 file0 time_s =
     (if train_data = [] then Inl IndexError
      else if args_wbatchsize a = 0 then Inl ZeroDivisionError
      else
        let src_words = int (length (concat (map fst train_data)));
            trg_words = int (length (concat (map snd train_data)));
            iter_per_epoch = (src_words + trg_words) div args_wbatchsize a
        in case run_epochs env a dev_data iter_per_epoch time_s
                  (map int [0..<nat (args_epoch a)]) (init_state model0 file0) of
             Inl e \<Rightarrow> Inl e
           | Inr s \<Rightarrow> final_phase env a dev_data test_data id2w s)"

subsection \<open>Reference definitions\<close>

text \<open>
  The partition of a corpus into consecutive batches of a fixed size, written from the
  spec's words (no token budget, no shuffling); the loop of \<open>CalculateBleu\<close> is
  compared with it.
\<close>

fun fixed_size_batches :: "'a list \<Rightarrow> nat \<Rightarrow> 'a list list" where
  "fixed_size_batches xs b =
     (if xs = [] \<or> b = 0 then [] else take b xs # fixed_size_batches (drop b xs) b)"

text \<open>
  Words joined by single spaces, written from the spec's words and without the source's
  \<open>join\<close>: the first word, then every further word with one space before it.
\<close>

definition spaced :: "string list \<Rightarrow> string" where
  "spaced ws = (case ws of [] \<Rightarrow> [] | w # vs \<Rightarrow> w @ concat (map (\<lambda>v. CHR '' '' # v) vs))"

text \<open>
  The line of a sentence: its ids looked up in the vocabulary, joined by single spaces,
  ended by a newline. It is used where every id of the sentence is in the vocabulary.
\<close>

definition line_of :: "(int \<rightharpoonup> string) \<Rightarrow> int list \<Rightarrow> string" where
  "line_of vocab sent = spaced (map (\<lambda>y. the (vocab y)) sent) @ [CHR 0x0A]"

subsection \<open>A small run\<close>

text \<open>
  Concrete collaborators and arguments, at which the hypotheses of the theorems below
  are met: one batch of one example per epoch, a network with no state, a translation
  that copies its sources, a constant score.
\<close>

definition example_env :: "unit collaborators" where
  "example_env =
     \<lparr>pool = (\<lambda>ep. [[([1, 2], [3])]]), learn = (\<lambda>m b. (m, new_Statistics, 0)),
      model_translate = (\<lambda>m sources max_length beam. sources), bleu_evaluate = (\<lambda>r h. 1),
      validate = (\<lambda>m. None)\<rparr>"

definition example_args :: args where
  "example_args =
     \<lparr>args_epoch = 1, args_wbatchsize = 8, args_batchsize = 4, args_beam_size = 1,
      args_report_every = 1, args_no_bleu = False, args_dev_hyp = ''dev.hyp'',
      args_test_hyp = ''test.hyp''\<rparr>"


section \<open>Properties\<close>

subsection \<open>The parameter tally\<close>

lemma elif_cond_truthy: "truthy (elif_cond name)"
  by (simp add: elif_cond_def py_or_def)

lemma tally_loop_sums:
  "tally_loop ps (enc, dec) =
     (enc + sum_list (map snd (filter (\<lambda>p. str_in ''encoder'' (fst p)) ps)),
      dec + sum_list (map snd (filter (\<lambda>p. \<not> str_in ''encoder'' (fst p)) ps)))"
proof (induction ps arbitrary: enc dec)
  case Nil
  show ?case by simp
next
  case (Cons p ps)
  obtain name nelement where p: "p = (name, nelement)" by (cases p)
  show ?case
    unfolding p using Cons.IH elif_cond_truthy [of name] by simp
qed

lemma sum_list_split:
  "sum_list (map snd (filter P ps)) + sum_list (map snd (filter (\<lambda>p. \<not> P p) ps)) =
   (sum_list (map snd ps) :: int)"
  by (induction ps) auto

text \<open>
  C10. The condition of the \<^verbatim>\<open>elif\<close> is truthy for every name, so a parameter whose name
  does not contain \<^verbatim>\<open>'encoder'\<close> is added to \<open>dec\<close> whatever its name is. Hence \<open>enc\<close>
  is the sum over the parameters whose name contains \<^verbatim>\<open>'encoder'\<close>, \<open>dec\<close> the sum over
  all the others, and every parameter is counted in exactly one of the two:
  \<open>enc + dec = n_params\<close>.
\<close>

theorem tally_parameters_two_buckets:
  "truthy (elif_cond name) \<and>
   tally_loop ((name, nelement) # ps) (enc, dec) =
     (if str_in ''encoder'' name then tally_loop ps (enc + nelement, dec)
      else tally_loop ps (enc, dec + nelement)) \<and>
   tally_parameters ps =
     (sum_list (map snd ps),
      sum_list (map snd (filter (\<lambda>p. str_in ''encoder'' (fst p)) ps)),
      sum_list (map snd (filter (\<lambda>p. \<not> str_in ''encoder'' (fst p)) ps))) \<and>
   fst (snd (tally_parameters ps)) + snd (snd (tally_parameters ps)) = fst (tally_parameters ps)"
proof -
  have t: "truthy (elif_cond name)" by (rule elif_cond_truthy)
  have l: "tally_loop ps (0, 0) =
     (sum_list (map snd (filter (\<lambda>p. str_in ''encoder'' (fst p)) ps)),
      sum_list (map snd (filter (\<lambda>p. \<not> str_in ''encoder'' (fst p)) ps)))"
    using tally_loop_sums [of ps 0 0] by simp
  have p: "tally_parameters ps =
     (sum_list (map snd ps),
      sum_list (map snd (filter (\<lambda>p. str_in ''encoder'' (fst p)) ps)),
      sum_list (map snd (filter (\<lambda>p. \<not> str_in ''encoder'' (fst p)) ps)))"
    by (simp add: tally_parameters_def l)
  show ?thesis
    using t p sum_list_split [of "\<lambda>p. str_in ''encoder'' (fst p)" ps] by simp
qed

subsection \<open>The checkpoint decision\<close>

text \<open>
  C2. The checkpoint decision saves the network exactly when \<open>score \<ge> best_score\<close>, a
  tie included. When it saves, \<open>best_score\<close> is the score afterwards and the file holds
  the current network; on a strictly lower score nothing changes.
\<close>

theorem maybe_checkpoint_iff:
  "(events (maybe_checkpoint score s) = events s @ [TorchSave (model s)]) = (score \<ge> best_score s) \<and>
   (if score \<ge> best_score s
    then best_score (maybe_checkpoint score s) = score \<and>
         snapshot (maybe_checkpoint score s) = Some (model s)
    else maybe_checkpoint score s = s)"
  by (simp add: maybe_checkpoint_def)

subsection \<open>The cadence of the evaluation\<close>

lemma cadence_guard_false: "0 \<le> n \<Longrightarrow> \<not> cadence_guard (n + 1)"
  by (simp add: cadence_guard_def)

lemma train_step_frame:
  assumes "0 \<le> total_steps s" and "train_step env a dev ipe t ep k b s = Inr s'"
  shows "total_steps s' = total_steps s + 1 \<and> best_score s' = best_score s \<and>
         snapshot s' = snapshot s \<and>
         filter (\<lambda>e. \<not> is_Output e) (events s') = filter (\<lambda>e. \<not> is_Output e) (events s)"
proof -
  have g: "\<not> cadence_guard (total_steps s + 1)"
    using assms(1) by (rule cadence_guard_false)
  show ?thesis
    using assms(2) g
    by (auto simp: train_step_def Let_def split: if_splits prod.splits sum.splits option.splits)
qed

lemma run_steps_frame:
  "0 \<le> total_steps s \<Longrightarrow> run_steps env a dev ipe t ep k bs s = Inr s' \<Longrightarrow>
   total_steps s' = total_steps s + int (length bs) \<and> best_score s' = best_score s \<and>
   snapshot s' = snapshot s \<and>
   filter (\<lambda>e. \<not> is_Output e) (events s') = filter (\<lambda>e. \<not> is_Output e) (events s)"
proof (induction bs arbitrary: s k)
  case Nil
  then show ?case by simp
next
  case (Cons b bs)
  from Cons.prems(2) obtain s1 where
    s1: "train_step env a dev ipe t ep k b s = Inr s1" and
    r: "run_steps env a dev ipe t ep (k + 1) bs s1 = Inr s'"
    by (auto split: sum.splits)
  from train_step_frame [OF Cons.prems(1) s1] have
    f: "total_steps s1 = total_steps s + 1" "best_score s1 = best_score s"
       "snapshot s1 = snapshot s"
       "filter (\<lambda>e. \<not> is_Output e) (events s1) = filter (\<lambda>e. \<not> is_Output e) (events s)"
    by simp_all
  have "0 \<le> total_steps s1" using f(1) Cons.prems(1) by simp
  from Cons.IH [OF this r] show ?case using f by simp
qed

lemma run_epoch_frame:
  assumes "0 \<le> total_steps s" and "run_epoch env a dev ipe t ep s = Inr s'"
  shows "total_steps s \<le> total_steps s' \<and> best_score s' = best_score s \<and>
   snapshot s' = snapshot s \<and>
   filter (\<lambda>e. \<not> is_Output e) (events s') = filter (\<lambda>e. \<not> is_Output e) (events s)"
proof -
  let ?s0 = "s\<lparr>report_stats := new_Statistics, train_stats := new_Statistics, grad_norm := 0\<rparr>"
  from assms(2) have r: "run_steps env a dev ipe t ep 0 (pool env ep) ?s0 = Inr s'"
    by (auto simp: run_epoch_def split: sum.splits option.splits)
  have "0 \<le> total_steps ?s0" using assms(1) by simp
  from run_steps_frame [OF this r] show ?thesis by simp
qed

lemma run_epochs_frame:
  "0 \<le> total_steps s \<Longrightarrow> run_epochs env a dev ipe t eps s = Inr s' \<Longrightarrow>
   total_steps s \<le> total_steps s' \<and> best_score s' = best_score s \<and>
   snapshot s' = snapshot s \<and>
   filter (\<lambda>e. \<not> is_Output e) (events s') = filter (\<lambda>e. \<not> is_Output e) (events s)"
proof (induction eps arbitrary: s)
  case Nil
  then show ?case by simp
next
  case (Cons ep eps)
  from Cons.prems(2) obtain s1 where
    s1: "run_epoch env a dev ipe t ep s = Inr s1" and
    r: "run_epochs env a dev ipe t eps s1 = Inr s'"
    by (auto split: sum.splits)
  note f = run_epoch_frame [OF Cons.prems(1) s1]
  have "0 \<le> total_steps s1" using f Cons.prems(1) by simp
  from Cons.IH [OF this r] show ?case using f by simp
qed

text \<open>
  C4. After any number of completed epochs and any number of steps of the next one,
  \<open>best_score\<close> is still 0, the file \<^verbatim>\<open>args.model_file\<close> holds what it held when the run
  began, and the only events so far are progress lines: no \<open>CalculateBleu\<close> pass and no
  \<^verbatim>\<open>torch.save\<close>. The guard of line 174 is false at the next step too, since
  \<open>total_steps\<close> is at least 1 after the increment.
\<close>

theorem best_score_stays_zero:
  assumes "run_epochs env a dev_data iter_per_epoch time_s eps (init_state model0 file0) = Inr s1"
    and "run_steps env a dev_data iter_per_epoch time_s ep 0 bs
           (s1\<lparr>report_stats := new_Statistics, train_stats := new_Statistics, grad_norm := 0\<rparr>) = Inr s"
  shows "best_score s = 0 \<and> snapshot s = file0 \<and> list_all is_Output (events s) \<and>
         1 \<le> total_steps s + 1 \<and> \<not> cadence_guard (total_steps s + 1)"
proof -
  let ?i = "init_state model0 file0"
  let ?s0 = "s1\<lparr>report_stats := new_Statistics, train_stats := new_Statistics, grad_norm := 0\<rparr>"
  have i: "0 \<le> total_steps ?i" by (simp add: init_state_def)
  note e = run_epochs_frame [OF i assms(1)]
  have z: "0 \<le> total_steps ?s0" using e i by simp
  note r = run_steps_frame [OF z assms(2)]
  have b: "best_score s = 0" using e r by (simp add: init_state_def)
  have f: "snapshot s = file0" using e r by (simp add: init_state_def)
  have "filter (\<lambda>e. \<not> is_Output e) (events s) = []"
    using e r by (simp add: init_state_def)
  then have o: "list_all is_Output (events s)"
    by (simp add: filter_empty_conv list_all_iff)
  have t: "0 \<le> total_steps s" using r z by simp
  show ?thesis using b f o t cadence_guard_false [OF t] by simp
qed

theorem best_score_stays_zero_witness:
  "\<exists>s1 s. run_epochs example_env example_args [([1], [2])] 1 0 [0] (init_state () None) = Inr s1 \<and>
     run_steps example_env example_args [([1], [2])] 1 0 1 0 [[([1, 2], [3])]]
       (s1\<lparr>report_stats := new_Statistics, train_stats := new_Statistics, grad_norm := 0\<rparr>) = Inr s \<and>
     total_steps s = 2 \<and> best_score s = 0 \<and> snapshot s = None \<and> list_all is_Output (events s) \<and>
     \<not> cadence_guard (total_steps s + 1)"
proof -
  obtain s1 where
    h1: "run_epochs example_env example_args [([1], [2])] 1 0 [0] (init_state () None) = Inr s1"
    and t1: "total_steps s1 = 1"
    by (simp add: run_epoch_def train_step_def example_env_def example_args_def init_state_def
        report_func_def cadence_guard_def Let_def)
  obtain s where
    h2: "run_steps example_env example_args [([1], [2])] 1 0 1 0 [[([1, 2], [3])]]
       (s1\<lparr>report_stats := new_Statistics, train_stats := new_Statistics, grad_norm := 0\<rparr>) = Inr s"
    and t2: "total_steps s = 2"
    using t1
    by (simp add: train_step_def example_env_def example_args_def report_func_def
        cadence_guard_def Let_def)
  from best_score_stays_zero [OF h1 h2] h1 h2 t2 show ?thesis by blast
qed

text \<open>
  C1, at the steps where a cadence of 1000 is due. The guard of line 174 is false at
  \<open>total_steps = 1000\<close> and at \<open>total_steps = 999\<close>, and the step that takes
  \<open>total_steps\<close> from 999 to 1000 with the evaluation enabled runs no
  \<open>CalculateBleu\<close> pass and saves nothing.
\<close>

theorem cadence_not_due_at_1000:
  "\<not> cadence_guard 1000 \<and> \<not> cadence_guard 999 \<and>
   \<not> args_no_bleu example_args \<and>
   (\<exists>s. train_step example_env example_args [([1], [2])] 1 0 0 999 [([1, 2], [3])]
           (init_state () None\<lparr>total_steps := 999\<rparr>) = Inr s \<and>
        total_steps s = 1000 \<and> best_score s = 0 \<and> snapshot s = None \<and>
        \<not> list_ex is_Bleu (events s) \<and> \<not> list_ex is_TorchSave (events s))"
  by (simp add: train_step_def example_env_def example_args_def init_state_def report_func_def
      cadence_guard_def Let_def)

subsection \<open>The report window\<close>

lemma minus_one_mod: "0 < (r::int) \<Longrightarrow> (- 1) mod r = r - 1"
  by (simp add: zmod_minus1)

lemma report_func_pos:
  assumes "0 < r"
  shows "report_func epoch batch num_batches start_time stats r g =
     Inr (if batch mod r = r - 1
          then (Some \<lparr>line_stats = stats, line_epoch = epoch, line_batch = batch + 1,
                       line_num_batches = num_batches, line_start_time = start_time,
                       line_grad_norm = g\<rparr>, new_Statistics)
          else (None, stats))"
  using assms by (simp add: report_func_def minus_one_mod)

text \<open>
  C6. For a report interval \<open>r > 0\<close>, \<open>report_func\<close> prints a line and returns a fresh
  Statistics exactly when \<open>batch mod r = r - 1\<close>, and returns the Statistics it was given
  otherwise. In the step of the loop, the epoch's \<open>train_stats\<close> is the merge of the
  batch into what it was, whether the window is reset or not; the window \<open>report_stats\<close>
  is fresh after a reset and the same merge otherwise; and the progress line is the only
  event of the step.
\<close>

theorem report_window_reset:
  assumes "0 < args_report_every a"
    and "0 \<le> total_steps s"
    and "train_step env a dev_data iter_per_epoch time_s ep num_steps train_batch s = Inr s'"
    and "learn env (model s) train_batch = (model', stat, nrm)"
  shows "report_func epoch batch num_batches start_time stats (args_report_every a) g =
           Inr (if batch mod args_report_every a = args_report_every a - 1
                then (Some \<lparr>line_stats = stats, line_epoch = epoch, line_batch = batch + 1,
                             line_num_batches = num_batches, line_start_time = start_time,
                             line_grad_norm = g\<rparr>, new_Statistics)
                else (None, stats)) \<and>
         train_stats s' =
           update ((train_stats s)\<lparr>n_src_words := n_src_words (train_stats s) +
                      int (length (concat (map fst train_batch)))\<rparr>) stat \<and>
         report_stats s' =
           (if num_steps mod args_report_every a = args_report_every a - 1 then new_Statistics
            else update ((report_stats s)\<lparr>n_src_words := n_src_words (report_stats s) +
                      int (length (concat (map fst train_batch)))\<rparr>) stat) \<and>
         events s' = events s @
           (if num_steps mod args_report_every a = args_report_every a - 1
            then [Output \<lparr>line_stats =
                            update ((report_stats s)\<lparr>n_src_words := n_src_words (report_stats s) +
                              int (length (concat (map fst train_batch)))\<rparr>) stat,
                          line_epoch = ep, line_batch = num_steps + 1,
                          line_num_batches = iter_per_epoch, line_start_time = time_s,
                          line_grad_norm = (grad_norm s + nrm) / real_of_int (num_steps + 1)\<rparr>]
            else [])"
proof -
  let ?r = "args_report_every a"
  let ?w = "int (length (concat (map fst train_batch)))"
  let ?rep = "update ((report_stats s)\<lparr>n_src_words := n_src_words (report_stats s) + ?w\<rparr>) stat"
  let ?tr = "update ((train_stats s)\<lparr>n_src_words := n_src_words (train_stats s) + ?w\<rparr>) stat"
  have 1: "report_func epoch batch num_batches start_time stats ?r g =
           Inr (if batch mod ?r = ?r - 1
                then (Some \<lparr>line_stats = stats, line_epoch = epoch, line_batch = batch + 1,
                             line_num_batches = num_batches, line_start_time = start_time,
                             line_grad_norm = g\<rparr>, new_Statistics)
                else (None, stats))"
    by (rule report_func_pos [OF assms(1)])
  have ne: "train_batch \<noteq> []"
    using assms(3) by (auto simp: train_step_def)
  define line rep3 where "line = (if num_steps mod ?r = ?r - 1
       then Some \<lparr>line_stats = ?rep, line_epoch = ep, line_batch = num_steps + 1,
                  line_num_batches = iter_per_epoch, line_start_time = time_s,
                  line_grad_norm = (grad_norm s + nrm) / real_of_int (num_steps + 1)\<rparr> else None)"
    and "rep3 = (if num_steps mod ?r = ?r - 1 then new_Statistics else ?rep)"
  have rf: "report_func ep num_steps iter_per_epoch time_s ?rep ?r
               ((grad_norm s + nrm) / real_of_int (num_steps + 1)) = Inr (line, rep3)"
    by (simp add: report_func_pos [OF assms(1)] line_def rep3_def)
  define s2 where "s2 = s\<lparr>model := model', total_steps := total_steps s + 1, report_stats := rep3,
                           train_stats := ?tr, grad_norm := grad_norm s + nrm,
                           events := events s @ (case line of None \<Rightarrow> [] | Some l \<Rightarrow> [Output l])\<rparr>"
  have g: "\<not> cadence_guard (total_steps s + 1)"
    using assms(2) by (rule cadence_guard_false)
  have "train_step env a dev_data iter_per_epoch time_s ep num_steps train_batch s = Inr s2"
    using ne assms(4) rf g by (simp add: train_step_def Let_def s2_def)
  with assms(3) have "s' = s2" by simp
  then have "report_stats s' = rep3 \<and> train_stats s' = ?tr \<and>
      events s' = events s @ (case line of None \<Rightarrow> [] | Some l \<Rightarrow> [Output l])"
    by (simp add: s2_def)
  then show ?thesis using 1 by (simp add: rep3_def line_def)
qed

theorem report_window_reset_witness:
  "\<exists>s'. train_step example_env (example_args\<lparr>args_report_every := 2\<rparr>) [] 1 0 0 1 [([1, 2], [3])]
           (init_state () None) = Inr s' \<and>
        report_func 0 1 1 0 new_Statistics 2 0 =
          Inr (Some \<lparr>line_stats = new_Statistics, line_epoch = 0, line_batch = 2,
                     line_num_batches = 1, line_start_time = 0, line_grad_norm = 0\<rparr>,
               new_Statistics) \<and>
        report_func 0 2 1 0 (new_Statistics\<lparr>n_words := 7\<rparr>) 2 0 =
          Inr (None, new_Statistics\<lparr>n_words := 7\<rparr>) \<and>
        report_stats s' = new_Statistics \<and>
        train_stats s' = new_Statistics\<lparr>n_src_words := 2\<rparr> \<and>
        length (events s') = 1"
proof -
  let ?a = "example_args\<lparr>args_report_every := 2\<rparr>"
  have r: "0 < args_report_every ?a" by simp
  have t: "0 \<le> total_steps (init_state () None)" by (simp add: init_state_def)
  obtain s' where h: "train_step example_env ?a [] 1 0 0 1 [([1, 2], [3])]
           (init_state () None) = Inr s'"
    by (simp add: train_step_def example_env_def example_args_def init_state_def report_func_def
        cadence_guard_def Let_def)
  have l: "learn example_env (model (init_state () None)) [([1, 2], [3])] = ((), new_Statistics, 0)"
    by (simp add: example_env_def)
  note w = report_window_reset [OF r t h l]
  have 1: "report_func 0 1 1 0 new_Statistics 2 0 =
          Inr (Some \<lparr>line_stats = new_Statistics, line_epoch = 0, line_batch = 2,
                     line_num_batches = 1, line_start_time = 0, line_grad_norm = 0\<rparr>,
               new_Statistics)"
    using w [of 0 1 1 0 new_Statistics 0] by simp
  have 2: "report_func 0 2 1 0 (new_Statistics\<lparr>n_words := 7\<rparr>) 2 0 =
          Inr (None, new_Statistics\<lparr>n_words := 7\<rparr>)"
    using w [of 0 2 1 0 "new_Statistics\<lparr>n_words := 7\<rparr>" 0] by simp
  have 3: "report_stats s' = new_Statistics \<and> train_stats s' = new_Statistics\<lparr>n_src_words := 2\<rparr> \<and>
        length (events s') = 1"
    using w [of 0 0 0 0 new_Statistics 0]
    by (simp add: init_state_def update_def new_Statistics_def)
  from h 1 2 3 show ?thesis by blast
qed

subsection \<open>Merging Statistics\<close>

lemma foldl_update:
  "foldl update s us =
     \<lparr>loss_sum = loss_sum s + sum_list (map loss_sum us),
      n_correct = n_correct s + sum_list (map n_correct us),
      n_src_words = n_src_words s + sum_list (map n_src_words us),
      n_words = n_words s + sum_list (map n_words us),
      n_batches = n_batches s + sum_list (map n_batches us)\<rparr>"
  by (induction us arbitrary: s) (simp_all add: update_def add.assoc)

lemma sum_list_map_mset:
  fixes f :: "'a \<Rightarrow> 'b::comm_monoid_add"
  assumes "mset us = mset vs"
  shows "sum_list (map f us) = sum_list (map f vs)"
proof -
  have "sum_list (map f us) = sum_mset (image_mset f (mset us))"
    by (simp flip: sum_mset_sum_list)
  also have "\<dots> = sum_mset (image_mset f (mset vs))" by (simp add: assms)
  also have "\<dots> = sum_list (map f vs)" by (simp flip: sum_mset_sum_list)
  finally show ?thesis .
qed

text \<open>
  C9. The merge of Statistics is associative and commutative. So when the same batch
  updates are merged into a Statistics in two different orders (\<open>us\<close> and \<open>vs\<close> are
  permutations of each other), the aggregate is the same record, and its perplexity and
  accuracy are the same. The arithmetic is exact, which is what the claim's tolerance
  for floating-point summation order stands for.
\<close>

theorem update_order_invariant:
  assumes "mset us = mset vs"
  shows "update (update a b) c = update a (update b c) \<and>
         update a b = update b a \<and>
         foldl update s us = foldl update s vs \<and>
         ppl (foldl update s us) = ppl (foldl update s vs) \<and>
         accuracy (foldl update s us) = accuracy (foldl update s vs)"
proof -
  have 1: "update (update a b) c = update a (update b c)"
    by (simp add: update_def add.assoc)
  have 2: "update a b = update b a"
    by (simp add: update_def add.commute)
  have 3: "foldl update s us = foldl update s vs"
    by (simp add: foldl_update sum_list_map_mset [OF assms])
  show ?thesis using 1 2 3 by simp
qed

theorem update_order_invariant_witness:
  "mset [new_Statistics\<lparr>loss_sum := 4, n_words := 2\<rparr>, new_Statistics\<lparr>loss_sum := 6, n_words := 3\<rparr>] =
   mset [new_Statistics\<lparr>loss_sum := 6, n_words := 3\<rparr>, new_Statistics\<lparr>loss_sum := 4, n_words := 2\<rparr>] \<and>
   foldl update new_Statistics
     [new_Statistics\<lparr>loss_sum := 4, n_words := 2\<rparr>, new_Statistics\<lparr>loss_sum := 6, n_words := 3\<rparr>] =
   foldl update new_Statistics
     [new_Statistics\<lparr>loss_sum := 6, n_words := 3\<rparr>, new_Statistics\<lparr>loss_sum := 4, n_words := 2\<rparr>] \<and>
   ppl (foldl update new_Statistics
     [new_Statistics\<lparr>loss_sum := 6, n_words := 3\<rparr>, new_Statistics\<lparr>loss_sum := 4, n_words := 2\<rparr>]) =
   Some (exp 2)"
proof -
  let ?u = "new_Statistics\<lparr>loss_sum := 4, n_words := 2\<rparr>"
  let ?v = "new_Statistics\<lparr>loss_sum := 6, n_words := 3\<rparr>"
  have h: "mset [?u, ?v] = mset [?v, ?u]" by (simp add: add_mset_commute)
  have p: "ppl (foldl update new_Statistics [?u, ?v]) = Some (exp 2)"
    by (simp add: ppl_def update_def new_Statistics_def)
  from update_order_invariant [OF h, of ?u ?v ?u new_Statistics] h p show ?thesis by simp
qed

subsection \<open>The token budget\<close>

lemma accumulate_sum:
  "accumulate b cnt sofar = sofar + (\<Sum>ex\<leftarrow>b. int (length (fst ex)) + int (length (snd ex)))"
  by (induction b arbitrary: cnt sofar) (simp_all add: batch_size_func_def)

lemma batch_cost_sum:
  "batch_cost b = (\<Sum>ex\<leftarrow>b. int (length (fst ex)) + int (length (snd ex)))"
  by (simp add: batch_cost_def accumulate_sum)

lemma batch_cost_append: "batch_cost (xs @ ys) = batch_cost xs + batch_cost ys"
  by (simp add: batch_cost_sum)

lemma batch_cost_nonneg: "0 \<le> batch_cost b"
  unfolding batch_cost_sum by (induction b) simp_all

lemma batch_cost_butlast: "batch_cost (butlast b) \<le> batch_cost b"
proof (cases "b = []")
  case True
  then show ?thesis by simp
next
  case False
  then have "b = butlast b @ [last b]" by simp
  then have "batch_cost b = batch_cost (butlast b) + batch_cost [last b]"
    using batch_cost_append [of "butlast b" "[last b]"] by simp
  then show ?thesis using batch_cost_nonneg [of "[last b]"] by simp
qed

lemma batch_loop_bound:
  assumes "0 < B"
  shows "size_so_far = batch_cost minibatch \<Longrightarrow> batch_cost minibatch < B \<Longrightarrow>
     b \<in> set (batch_loop batch_size_func B rest minibatch size_so_far) \<Longrightarrow>
     b \<noteq> [] \<and> batch_cost (butlast b) < B"
proof (induction rest arbitrary: minibatch size_so_far)
  case Nil
  then have "b = minibatch" "minibatch \<noteq> []" by (auto split: if_splits)
  then show ?case using Nil.prems(2) batch_cost_butlast [of b] by simp
next
  case (Cons ex rest)
  let ?m = "minibatch @ [ex]"
  let ?s = "batch_size_func ex (int (length ?m)) size_so_far"
  have s: "?s = batch_cost ?m"
    using Cons.prems(1) by (simp add: batch_cost_sum batch_size_func_def)
  show ?case
  proof (cases "B \<le> ?s")
    case True
    with Cons.prems(3) have "b = ?m \<or> b \<in> set (batch_loop batch_size_func B rest [] 0)"
      by (simp add: Let_def)
    then show ?thesis
    proof
      assume "b = ?m"
      then show ?thesis using Cons.prems(2) by simp
    next
      assume "b \<in> set (batch_loop batch_size_func B rest [] 0)"
      moreover have "(0::int) = batch_cost []" by (simp add: batch_cost_sum)
      moreover have "batch_cost [] < B" using assms by (simp add: batch_cost_sum)
      ultimately show ?thesis by (rule Cons.IH [rotated 2])
    qed
  next
    case False
    with Cons.prems(3) have "b \<in> set (batch_loop batch_size_func B rest ?m ?s)"
      by (simp add: Let_def)
    moreover have "batch_cost ?m < B" using False s by simp
    ultimately show ?thesis using s Cons.IH [of ?s ?m] by simp
  qed
qed

lemma batch_loop_concat:
  "concat (batch_loop f B rest minibatch size_so_far) = minibatch @ rest"
  by (induction rest arbitrary: minibatch size_so_far) (simp_all add: Let_def)

text \<open>
  C3. For a budget \<open>B > 0\<close>, the cost that \<open>batch_size_func\<close> accumulates over a batch
  is the sum over its examples of source length plus target length. Every batch
  produced is non-empty, and its cost without the example appended last is below \<open>B\<close>:
  the batch exceeds \<open>B\<close> by no more than the cost of that one example. The batches,
  in order, make up the corpus.
\<close>

theorem batches_within_budget:
  assumes "0 < B" and "b \<in> set (batches corpus B)"
  shows "batch_cost b = (\<Sum>ex\<leftarrow>b. int (length (fst ex)) + int (length (snd ex))) \<and>
         b \<noteq> [] \<and>
         batch_cost (butlast b) < B \<and>
         batch_cost b \<le> B + batch_cost [last b] \<and>
         concat (batches corpus B) = corpus"
proof -
  have "(0::int) = batch_cost []" by (simp add: batch_cost_sum)
  moreover have "batch_cost [] < B" using assms(1) by (simp add: batch_cost_sum)
  moreover have "b \<in> set (batch_loop batch_size_func B corpus [] 0)"
    using assms(2) by (simp add: batches_def)
  ultimately have n: "b \<noteq> [] \<and> batch_cost (butlast b) < B"
    by (rule batch_loop_bound [OF assms(1)])
  then have "b = butlast b @ [last b]" by simp
  then have "batch_cost b = batch_cost (butlast b) + batch_cost [last b]"
    using batch_cost_append [of "butlast b" "[last b]"] by simp
  then show ?thesis
    using n by (simp add: batch_cost_sum batches_def batch_loop_concat)
qed

theorem batches_within_budget_witness:
  "(0::int) < 7 \<and>
   batches [([2, 5, 3], [7, 5]), ([9], [9, 9]), ([1], [])] 7 =
     [[([2, 5, 3], [7, 5]), ([9], [9, 9])], [([1], [])]] \<and>
   batch_cost [([2, 5, 3], [7, 5]), ([9], [9, 9])] = 8 \<and>
   batch_cost (butlast [([2, 5, 3], [7, 5]), ([9], [9, 9])]) < 7"
proof -
  have h: "(0::int) < 7" by simp
  have e: "batches [([2, 5, 3], [7, 5]), ([9], [9, 9]), ([1], [])] 7 =
     [[([2, 5, 3], [7, 5]), ([9], [9, 9])], [([1], [])]]"
    by (simp add: batches_def batch_size_func_def)
  then have m: "[([2, 5, 3], [7, 5]), ([9], [9, 9])] \<in>
      set (batches [([2, 5, 3], [7, 5]), ([9], [9, 9]), ([1], [])] 7)"
    by simp
  from batches_within_budget [OF h m] h e show ?thesis by simp
qed

subsection \<open>The evaluation pass\<close>

declare fixed_size_batches.simps [simp del]

lemma concat_fixed_size_batches: "0 < b \<Longrightarrow> concat (fixed_size_batches xs b) = xs"
  by (induction xs b rule: fixed_size_batches.induct)
     (subst fixed_size_batches.simps, simp)

lemma fixed_size_batches_sizes:
  "c \<in> set (fixed_size_batches xs b) \<Longrightarrow> c \<noteq> [] \<and> length c \<le> b"
proof (induction xs b rule: fixed_size_batches.induct)
  case (1 xs b)
  show ?case
  proof (cases "xs = [] \<or> b = 0")
    case True
    with "1.prems" show ?thesis by (subst (asm) fixed_size_batches.simps) simp
  next
    case False
    with "1.prems" have "c = take b xs \<or> c \<in> set (fixed_size_batches (drop b xs) b)"
      by (subst (asm) fixed_size_batches.simps) simp
    then show ?thesis using False "1.IH" by auto
  qed
qed

lemma slice_take_drop:
  assumes "0 \<le> i" and "i \<le> j"
  shows "slice xs i j = take (nat (j - i)) (drop (nat i) xs)"
proof (cases "i \<le> int (length xs)")
  case True
  then show ?thesis using assms
    by (auto simp: slice_def Let_def min_def nat_diff_distrib)
next
  case False
  then show ?thesis using assms by (simp add: slice_def Let_def min_def)
qed

lemma fixed_size_batches_index:
  "0 < b \<Longrightarrow> fixed_size_batches xs b =
     map (\<lambda>k. take b (drop (k * b) xs)) [0..<(length xs + b - 1) div b]"
proof (induction xs b rule: fixed_size_batches.induct)
  case (1 xs b)
  show ?case
  proof (cases "xs = []")
    case True
    then show ?thesis using "1.prems" by (subst fixed_size_batches.simps) simp
  next
    case False
    let ?n = "length xs"
    let ?m = "(length (drop b xs) + b - 1) div b"
    have n: "0 < ?n" using False by simp
    have "b \<le> ?n + b - 1" using n by arith
    then have "(?n + b - 1) div b = Suc ((?n + b - 1 - b) div b)"
      using "1.prems" by (simp add: le_div_geq)
    moreover have "(?n + b - 1 - b) div b = ?m"
    proof (cases "b \<le> ?n")
      case True
      then show ?thesis by simp
    next
      case False
      then have "?n + b - 1 - b < b" "length (drop b xs) + b - 1 < b"
        using n by simp_all
      then show ?thesis by simp
    qed
    ultimately have m: "(?n + b - 1) div b = Suc ?m" by simp
    have "fixed_size_batches xs b = take b xs # fixed_size_batches (drop b xs) b"
      using False "1.prems" by (subst fixed_size_batches.simps) simp
    also have "fixed_size_batches (drop b xs) b =
        map (\<lambda>k. take b (drop (k * b) (drop b xs))) [0..<?m]"
      using "1.IH" False "1.prems" by simp
    also have "\<dots> = map (\<lambda>k. take b (drop (Suc k * b) xs)) [0..<?m]"
      by (simp add: add.commute)
    also have "take b xs # \<dots> = map (\<lambda>k. take b (drop (k * b) xs)) [0..<Suc ?m]"
      by (simp add: upt_conv_Cons map_Suc_upt [symmetric] del: upt_Suc)
    finally show ?thesis using m by simp
  qed
qed

lemma py_range_chunks:
  assumes "0 < batch"
  shows "\<exists>is. py_range 0 (int (length xs)) batch = Inr is \<and>
     map (\<lambda>i. slice xs i (i + batch)) is = fixed_size_batches xs (nat batch)"
proof -
  obtain b where b: "batch = int b" "0 < b"
    using assms by (metis nat_0_le order_less_imp_le zero_less_nat_eq)
  have d: "nat ((int (length xs) + int b - 1) div int b) = (length xs + b - 1) div b"
  proof -
    have "int (length xs) + int b - 1 = int (length xs + b - 1)" using b(2) by simp
    then show ?thesis by (simp only: zdiv_int [symmetric] nat_int)
  qed
  have s: "slice xs (int k * int b) (int k * int b + int b) = take b (drop (k * b) xs)" for k
    using slice_take_drop [of "int k * int b" "int k * int b + int b" xs]
    by (simp add: nat_mult_distrib)
  show ?thesis
    using b d s by (simp add: py_range_def fixed_size_batches_index comp_def)
qed

lemma bleu_loop_eq:
  "bleu_loop tr data batch ml k is (refs, hyps, calls) =
     (refs @ concat (map (\<lambda>i. map snd (slice data i (i + batch))) is),
      hyps @ concat (map (\<lambda>i. tr (map fst (slice data i (i + batch))) ml
                                (if k > 1 then Beam k else BeamFalse)) is),
      calls @ map (\<lambda>i. (map fst (slice data i (i + batch)), ml,
                          if k > 1 then Beam k else BeamFalse)) is)"
  by (induction "is" arbitrary: refs hyps calls) (simp_all add: Let_def)

lemma CalculateBleu_chunks:
  assumes "0 < batch"
  shows "CalculateBleu tr ev data batch ml k =
     Inr ((ev (concat (map (map snd) (fixed_size_batches data (nat batch))))
              (concat (map (\<lambda>c. tr (map fst c) ml (if k > 1 then Beam k else BeamFalse))
                         (fixed_size_batches data (nat batch)))),
           concat (map (\<lambda>c. tr (map fst c) ml (if k > 1 then Beam k else BeamFalse))
                         (fixed_size_batches data (nat batch)))),
          map (\<lambda>c. (map fst c, ml, if k > 1 then Beam k else BeamFalse))
              (fixed_size_batches data (nat batch)))"
proof -
  from py_range_chunks [OF assms, of data] obtain "is" where
    r: "py_range 0 (int (length data)) batch = Inr is" and
    c: "map (\<lambda>i. slice data i (i + batch)) is = fixed_size_batches data (nat batch)"
    by blast
  define bm where "bm = (if k > 1 then Beam k else BeamFalse)"
  have m: "map (\<lambda>i. f (slice data i (i + batch))) is =
           map f (fixed_size_batches data (nat batch))" for f :: "example list \<Rightarrow> 'b"
    using arg_cong [OF c, of "map f"] by (simp add: comp_def)
  have l: "bleu_loop tr data batch ml k is ([], [], []) =
     (concat (map (map snd) (fixed_size_batches data (nat batch))),
      concat (map (\<lambda>c. tr (map fst c) ml bm) (fixed_size_batches data (nat batch))),
      map (\<lambda>c. (map fst c, ml, bm)) (fixed_size_batches data (nat batch)))"
    unfolding bleu_loop_eq bm_def [symmetric]
    using m [of "map snd"] m [of "\<lambda>c. tr (map fst c) ml bm"] m [of "\<lambda>c. (map fst c, ml, bm)"]
    by simp
  show ?thesis
    unfolding bm_def [symmetric] by (simp add: CalculateBleu_def r l)
qed

lemma concat_aligned:
  "list_all2 (\<lambda>xs ys. length xs = length ys) xss yss \<Longrightarrow> i < length (concat xss) \<Longrightarrow>
   \<exists>j n. j < length xss \<and> n < length (xss ! j) \<and>
         concat xss ! i = xss ! j ! n \<and> concat yss ! i = yss ! j ! n"
proof (induction arbitrary: i rule: list_all2_induct)
  case Nil
  then show ?case by simp
next
  case (Cons xs xss ys yss)
  show ?case
  proof (cases "i < length xs")
    case True
    then have "concat (xs # xss) ! i = (xs # xss) ! 0 ! i \<and>
               concat (ys # yss) ! i = (ys # yss) ! 0 ! i"
      using Cons.hyps(1) by (simp add: nth_append)
    then show ?thesis using True by (intro exI [of _ 0] exI [of _ i]) simp
  next
    case False
    then have "i - length xs < length (concat xss)" using Cons.prems by simp
    from Cons.IH [OF this] obtain j n where
      jn: "j < length xss" "n < length (xss ! j)"
          "concat xss ! (i - length xs) = xss ! j ! n"
          "concat yss ! (i - length xs) = yss ! j ! n"
      by blast
    have "concat (xs # xss) ! i = (xs # xss) ! Suc j ! n \<and>
          concat (ys # yss) ! i = (ys # yss) ! Suc j ! n"
      using False Cons.hyps(1) jn by (simp add: nth_append)
    then show ?thesis using jn by (intro exI [of _ "Suc j"] exI [of _ n]) simp
  qed
qed

text \<open>
  C5. For a batch size of at least 1 and a \<open>translate\<close> that returns one hypothesis per
  source, \<open>CalculateBleu\<close> returns; the sources it hands to \<open>translate\<close>, call by call,
  are the consecutive batches of the corpus of that fixed size, in corpus order and
  unshuffled, each of them non-empty and of at most that size; the hypotheses are the
  answers of these calls, in order; there are as
  many hypotheses as examples; and hypothesis \<open>i\<close> is the answer, at the same position of
  the same call, to the source of example \<open>i\<close>.
\<close>

theorem CalculateBleu_corpus_order:
  assumes "0 < batch"
    and "\<And>sources m bm. length (translate sources m bm) = length sources"
  shows "\<exists>score hypotheses calls.
     CalculateBleu translate evaluate test_data batch max_length k =
       Inr ((score, hypotheses), calls) \<and>
     map fst calls = map (map fst) (fixed_size_batches test_data (nat batch)) \<and>
     concat (map fst calls) = map fst test_data \<and>
     (\<forall>c\<in>set calls. fst c \<noteq> [] \<and> int (length (fst c)) \<le> batch) \<and>
     hypotheses = concat (map (\<lambda>(sources, m, bm). translate sources m bm) calls) \<and>
     length hypotheses = length test_data \<and>
     (\<forall>i<length test_data. \<exists>j n. j < length calls \<and> n < length (fst (calls ! j)) \<and>
        fst (test_data ! i) = fst (calls ! j) ! n \<and>
        hypotheses ! i = (case calls ! j of (sources, m, bm) \<Rightarrow> translate sources m bm) ! n)"
proof -
  let ?bm = "if k > 1 then Beam k else BeamFalse"
  let ?chunks = "fixed_size_batches test_data (nat batch)"
  let ?calls = "map (\<lambda>c. (map fst c, max_length, ?bm)) ?chunks"
  let ?hyps = "concat (map (\<lambda>c. translate (map fst c) max_length ?bm) ?chunks)"
  have b: "0 < nat batch" using assms(1) by simp
  have c: "concat ?chunks = test_data" by (rule concat_fixed_size_batches [OF b])
  have 1: "CalculateBleu translate evaluate test_data batch max_length k =
       Inr ((evaluate (concat (map (map snd) ?chunks)) ?hyps, ?hyps), ?calls)"
    by (rule CalculateBleu_chunks [OF assms(1)])
  have 2: "map fst ?calls = map (map fst) ?chunks" by (simp add: comp_def)
  have 3: "concat (map fst ?calls) = map fst test_data"
    unfolding 2 using arg_cong [OF c, of "map fst"] by (simp add: map_concat)
  have 4: "?hyps = concat (map (\<lambda>(sources, m, bm). translate sources m bm) ?calls)"
    by (simp add: comp_def)
  have 7: "\<forall>c\<in>set ?calls. fst c \<noteq> [] \<and> int (length (fst c)) \<le> batch"
  proof
    fix c assume "c \<in> set ?calls"
    then obtain ch where ch: "ch \<in> set ?chunks" "fst c = map fst ch" by auto
    from fixed_size_batches_sizes [OF ch(1)] have "ch \<noteq> [] \<and> length ch \<le> nat batch" .
    then have "ch \<noteq> []" and "int (length ch) \<le> batch"
      using assms(1) by linarith+
    then show "fst c \<noteq> [] \<and> int (length (fst c)) \<le> batch"
      using ch(2) by simp
  qed
  have a: "list_all2 (\<lambda>xs ys. length xs = length ys) (map fst ?calls)
             (map (\<lambda>(sources, m, bm). translate sources m bm) ?calls)"
    by (simp add: list_all2_conv_all_nth assms(2))
  have "length ?hyps = length (concat (map fst ?calls))"
    unfolding 4 using a
    by (induction rule: list_all2_induct) simp_all
  then have 5: "length ?hyps = length test_data" using 3 by simp
  have 6: "\<exists>j n. j < length ?calls \<and> n < length (fst (?calls ! j)) \<and>
        fst (test_data ! i) = fst (?calls ! j) ! n \<and>
        ?hyps ! i = (case ?calls ! j of (sources, m, bm) \<Rightarrow> translate sources m bm) ! n"
    if i: "i < length test_data" for i
  proof -
    have "i < length (concat (map fst ?calls))" using i 3 by simp
    from concat_aligned [OF a this] obtain j n where
      jn: "j < length (map fst ?calls)" "n < length (map fst ?calls ! j)"
          "concat (map fst ?calls) ! i = map fst ?calls ! j ! n"
          "concat (map (\<lambda>(sources, m, bm). translate sources m bm) ?calls) ! i =
             map (\<lambda>(sources, m, bm). translate sources m bm) ?calls ! j ! n"
      by blast
    have j: "j < length ?calls" using jn(1) by simp
    have "fst (test_data ! i) = map fst test_data ! i" using i by simp
    also have "\<dots> = fst (?calls ! j) ! n" using jn(3) j unfolding 3 by simp
    finally have s: "fst (test_data ! i) = fst (?calls ! j) ! n" .
    have h: "?hyps ! i = (case ?calls ! j of (sources, m, bm) \<Rightarrow> translate sources m bm) ! n"
      using jn(4) j unfolding 4 [symmetric] by simp
    have "n < length (fst (?calls ! j))" using jn(2) j by simp
    with j s h show ?thesis by blast
  qed
  show ?thesis
    using 1 2 3 4 5 6 7 by blast
qed

theorem CalculateBleu_corpus_order_witness:
  "(0::int) < 2 \<and>
   (\<exists>calls. CalculateBleu (\<lambda>s m b. map rev s) (\<lambda>r h. 1)
        [([1, 2], [2]), ([3], [4]), ([5, 6], [])] 2 50 1 =
      Inr ((1, [[2, 1], [3], [6, 5]]), calls) \<and>
      map fst calls = [[[1, 2], [3]], [[5, 6]]] \<and>
      concat (map fst calls) = map fst [([1, 2], [2]), ([3], [4]), ([5, 6], [])])"
proof -
  let ?data = "[([1, 2], [2]), ([3], [4]), ([5, 6], [])] :: example list"
  have b: "(0::int) < 2" by simp
  have t: "length ((\<lambda>s m b. map rev s) sources m bm) = length sources"
    for sources :: "int list list" and m :: int and bm :: beam_arg
    by simp
  from CalculateBleu_corpus_order [of 2 "\<lambda>s m b. map rev s" "\<lambda>r h. 1" ?data 50 1, OF b t]
  obtain score hypotheses calls where
    c: "CalculateBleu (\<lambda>s m b. map rev s) (\<lambda>r h. 1) ?data 2 50 1 =
          Inr ((score, hypotheses), calls)"
    and m: "concat (map fst calls) = map fst ?data"
    by blast
  have e: "CalculateBleu (\<lambda>s m b. map rev s) (\<lambda>r h. 1) ?data 2 50 1 =
     Inr ((1, [[2, 1], [3], [6, 5]]), [([[1, 2], [3]], 50, BeamFalse), ([[5, 6]], 50, BeamFalse)])"
    by (simp add: CalculateBleu_def py_range_def slice_def Let_def upt_conv_Cons)
  from c e have "calls = [([[1, 2], [3]], 50, BeamFalse), ([[5, 6]], 50, BeamFalse)]" by simp
  with e b m show ?thesis by simp
qed

lemma fixed_size_batches_nonempty:
  assumes "xs \<noteq> []" and "0 < b"
  shows "fixed_size_batches xs b \<noteq> []"
  using assms by (subst fixed_size_batches.simps) simp

text \<open>
  C8. An evaluation pass with a batch size of at least 1 returns, and it generates with
  beam search if and only if the beam width \<open>k\<close> is greater than 1: when \<open>k > 1\<close> its
  calls of \<open>translate\<close> are exactly one per batch of the corpus, each with the configured
  \<open>max_length\<close> and \<^verbatim>\<open>beam=k\<close>, and its hypotheses are the answers of these calls; when
  \<open>k \<le> 1\<close> the same holds with \<^verbatim>\<open>beam=False\<close>, the greedy mode. Both modes go through
  \<open>translate\<close>, and on a non-empty corpus at least one call is made.
\<close>

theorem generation_mode:
  assumes "0 < batch"
  shows "(k > 1 \<longrightarrow>
            CalculateBleu translate evaluate test_data batch max_length k =
              Inr ((evaluate (concat (map (map snd) (fixed_size_batches test_data (nat batch))))
                      (concat (map (\<lambda>c. translate (map fst c) max_length (Beam k))
                                 (fixed_size_batches test_data (nat batch)))),
                    concat (map (\<lambda>c. translate (map fst c) max_length (Beam k))
                              (fixed_size_batches test_data (nat batch)))),
                   map (\<lambda>c. (map fst c, max_length, Beam k))
                       (fixed_size_batches test_data (nat batch)))) \<and>
         (\<not> k > 1 \<longrightarrow>
            CalculateBleu translate evaluate test_data batch max_length k =
              Inr ((evaluate (concat (map (map snd) (fixed_size_batches test_data (nat batch))))
                      (concat (map (\<lambda>c. translate (map fst c) max_length BeamFalse)
                                 (fixed_size_batches test_data (nat batch)))),
                    concat (map (\<lambda>c. translate (map fst c) max_length BeamFalse)
                              (fixed_size_batches test_data (nat batch)))),
                   map (\<lambda>c. (map fst c, max_length, BeamFalse))
                       (fixed_size_batches test_data (nat batch)))) \<and>
         (test_data \<noteq> [] \<longrightarrow> fixed_size_batches test_data (nat batch) \<noteq> [])"
proof -
  note c = CalculateBleu_chunks [OF assms, of translate evaluate test_data max_length k]
  have b: "0 < nat batch" using assms by simp
  have 1: "k > 1 \<longrightarrow>
            CalculateBleu translate evaluate test_data batch max_length k =
              Inr ((evaluate (concat (map (map snd) (fixed_size_batches test_data (nat batch))))
                      (concat (map (\<lambda>c. translate (map fst c) max_length (Beam k))
                                 (fixed_size_batches test_data (nat batch)))),
                    concat (map (\<lambda>c. translate (map fst c) max_length (Beam k))
                              (fixed_size_batches test_data (nat batch)))),
                   map (\<lambda>c. (map fst c, max_length, Beam k))
                       (fixed_size_batches test_data (nat batch)))"
    using c by simp
  have 2: "\<not> k > 1 \<longrightarrow>
            CalculateBleu translate evaluate test_data batch max_length k =
              Inr ((evaluate (concat (map (map snd) (fixed_size_batches test_data (nat batch))))
                      (concat (map (\<lambda>c. translate (map fst c) max_length BeamFalse)
                                 (fixed_size_batches test_data (nat batch)))),
                    concat (map (\<lambda>c. translate (map fst c) max_length BeamFalse)
                              (fixed_size_batches test_data (nat batch)))),
                   map (\<lambda>c. (map fst c, max_length, BeamFalse))
                       (fixed_size_batches test_data (nat batch)))"
    using c by simp
  have 3: "test_data \<noteq> [] \<longrightarrow> fixed_size_batches test_data (nat batch) \<noteq> []"
    using fixed_size_batches_nonempty [OF _ b] by blast
  from 1 2 3 show ?thesis by blast
qed

text \<open>
  The same corpus and batch size in both modes, with a \<open>translate\<close> that reverses each
  source under beam search and copies it under greedy decoding.
\<close>

theorem generation_mode_witness:
  "(0::int) < 1 \<and>
   CalculateBleu (\<lambda>s m b. case b of BeamFalse \<Rightarrow> s | Beam w \<Rightarrow> map rev s) (\<lambda>r h. 1)
       [([1, 2], [2]), ([3, 4], [4])] 1 50 3 =
     Inr ((1, [[2, 1], [4, 3]]), [([[1, 2]], 50, Beam 3), ([[3, 4]], 50, Beam 3)]) \<and>
   CalculateBleu (\<lambda>s m b. case b of BeamFalse \<Rightarrow> s | Beam w \<Rightarrow> map rev s) (\<lambda>r h. 1)
       [([1, 2], [2]), ([3, 4], [4])] 1 50 1 =
     Inr ((1, [[1, 2], [3, 4]]), [([[1, 2]], 50, BeamFalse), ([[3, 4]], 50, BeamFalse)])"
proof -
  let ?tr = "\<lambda>(s::int list list) (m::int) b. case b of BeamFalse \<Rightarrow> s | Beam w \<Rightarrow> map rev s"
  let ?data = "[([1, 2], [2]), ([3, 4], [4])] :: example list"
  have b: "(0::int) < 1" by simp
  have f: "fixed_size_batches ?data (Suc 0) = [[([1, 2], [2])], [([3, 4], [4])]]"
    by (simp add: fixed_size_batches.simps)
  have 1: "CalculateBleu ?tr (\<lambda>r h. 1) ?data 1 50 3 =
     Inr ((1, [[2, 1], [4, 3]]), [([[1, 2]], 50, Beam 3), ([[3, 4]], 50, Beam 3)])"
    using generation_mode [OF b, of 3 ?tr "\<lambda>r h. 1" ?data 50] by (simp add: f)
  have 2: "CalculateBleu ?tr (\<lambda>r h. 1) ?data 1 50 1 =
     Inr ((1, [[1, 2], [3, 4]]), [([[1, 2]], 50, BeamFalse), ([[3, 4]], 50, BeamFalse)])"
    using generation_mode [OF b, of 1 ?tr "\<lambda>r h. 1" ?data 50] by (simp add: f)
  from b 1 2 show ?thesis by simp
qed

subsection \<open>The hypothesis files\<close>

lemma join_spaced: "join '' '' ws = spaced ws"
  by (induction "'' ''" ws rule: join.induct) (simp_all add: spaced_def)

lemma lookup_words_eq:
  "lookup_words vocab sent =
     (if \<forall>y\<in>set sent. vocab y \<noteq> None then Inr (map (\<lambda>y. the (vocab y)) sent) else Inl KeyError)"
  by (induction sent) (auto split: option.splits)

lemma write_loop_eq:
  "write_loop hyps vocab fp =
     (if \<forall>sent\<in>set hyps. \<forall>y\<in>set sent. vocab y \<noteq> None
      then Inr (fp @ map (line_of vocab) hyps) else Inl KeyError)"
  by (induction hyps arbitrary: fp) (auto simp: lookup_words_eq line_of_def join_spaced)

text \<open>
  \<open>save_output\<close> writes one line per hypothesis, its ids looked up in the vocabulary
  and joined by single spaces, when every id is in the vocabulary; otherwise the lookup
  raises.
\<close>

lemma save_output_eq:
  "save_output hyps vocab =
     (if \<forall>sent\<in>set hyps. \<forall>y\<in>set sent. vocab y \<noteq> None
      then Inr (map (line_of vocab) hyps) else Inl KeyError)"
  by (simp add: save_output_def write_loop_eq)

lemma final_phase_events:
  assumes "final_phase env a dev_data test_data id2w s1 = Inr s"
  shows "\<exists>m r1 dev_hyp c1 r2 test_hyp c2.
       snapshot s1 = Some m \<and>
       CalculateBleu (model_translate env m) (bleu_evaluate env) dev_data
         (args_batchsize a div 4) 50 (args_beam_size a) = Inr ((r1, dev_hyp), c1) \<and>
       CalculateBleu (model_translate env m) (bleu_evaluate env) test_data
         (args_batchsize a div 4) 50 (args_beam_size a) = Inr ((r2, test_hyp), c2) \<and>
       events s = events s1 @
         [Bleu ''Dev Bleu'', SaveOutput (args_dev_hyp a) (map (line_of id2w) dev_hyp),
          Bleu ''Test Bleu'', SaveOutput (args_test_hyp a) (map (line_of id2w) test_hyp)]"
  using assms
  by (auto simp: final_phase_def save_output_eq split: option.splits sum.splits prod.splits if_splits)

text \<open>
  A run of \<open>main\<close> that completes has found a snapshot in \<^verbatim>\<open>args.model_file\<close> that was
  there before the run; before its final phase it has printed progress lines and done
  nothing else, and it ends with the validation pass, one write of the validation
  hypotheses, the test pass and one write of the test hypotheses.
\<close>

lemma main_completed_events:
  assumes "main env a train_data dev_data test_data id2w model0 file0 time_s = Inr s"
  shows "\<exists>outs m r1 dev_hyp c1 r2 test_hyp c2.
            list_all is_Output outs \<and> file0 = Some m \<and>
            CalculateBleu (model_translate env m) (bleu_evaluate env) dev_data
              (args_batchsize a div 4) 50 (args_beam_size a) = Inr ((r1, dev_hyp), c1) \<and>
            CalculateBleu (model_translate env m) (bleu_evaluate env) test_data
              (args_batchsize a div 4) 50 (args_beam_size a) = Inr ((r2, test_hyp), c2) \<and>
            events s = outs @
              [Bleu ''Dev Bleu'', SaveOutput (args_dev_hyp a) (map (line_of id2w) dev_hyp),
               Bleu ''Test Bleu'', SaveOutput (args_test_hyp a) (map (line_of id2w) test_hyp)]"
proof -
  let ?i = "init_state model0 file0"
  from assms obtain ipe s1 where
    e: "run_epochs env a dev_data ipe time_s (map int [0..<nat (args_epoch a)]) ?i = Inr s1"
    and f: "final_phase env a dev_data test_data id2w s1 = Inr s"
    by (auto simp: main_def Let_def split: if_splits sum.splits)
  have i: "0 \<le> total_steps ?i" by (simp add: init_state_def)
  note fr = run_epochs_frame [OF i e]
  have sn: "snapshot s1 = file0" using fr by (simp add: init_state_def)
  have "filter (\<lambda>e. \<not> is_Output e) (events s1) = []"
    using fr by (simp add: init_state_def)
  then have o: "list_all is_Output (events s1)"
    by (simp add: filter_empty_conv list_all_iff)
  from final_phase_events [OF f] sn o show ?thesis
    by (metis (no_types, lifting))
qed

text \<open>
  Without a snapshot in \<^verbatim>\<open>args.model_file\<close> before the run, \<open>main\<close> never completes:
  the loop saves none, and \<^verbatim>\<open>torch.load\<close> of line 202 raises.
\<close>

lemma main_needs_snapshot:
  "main env a train_data dev_data test_data id2w model0 None time_s \<noteq> Inr s"
proof
  assume "main env a train_data dev_data test_data id2w model0 None time_s = Inr s"
  from main_completed_events [OF this] show False by blast
qed


end
